theory Spec2Isabelle
  imports Main
begin

section \<open>Python primitives used by the cmscan parser\<close>

text \<open>
  A Python \<open>str\<close> is modelled as a \<open>string\<close> whose characters are the code points
  0..255. A file handle is the list of the lines it iterates over. Every exception the
  parser can raise is a value of \<open>error\<close>; a computation that may raise returns
  \<open>error + 'a\<close> with the exception on the left.
\<close>

datatype error =
    CmscanFormatError string
  | IndexError
  | KeyError
  | TypeError
  | ValueError

definition bindE :: "error + 'a \<Rightarrow> ('a \<Rightarrow> error + 'b) \<Rightarrow> error + 'b" where
  "bindE m f = (case m of Inl e \<Rightarrow> Inl e | Inr x \<Rightarrow> f x)"

text \<open>
  \<open>str.isspace\<close> on one character: the code points below 256 that Python treats as
  whitespace in \<open>strip()\<close> and \<open>split()\<close>.
\<close>

definition isspace_chr :: "char \<Rightarrow> bool" where
  "isspace_chr c = ((of_char c :: nat) \<in> {9, 10, 11, 12, 13, 28, 29, 30, 31, 32, 133, 160})"

text \<open>\<open>line.strip()\<close>: leading and trailing whitespace removed.\<close>

definition strip_py :: "string \<Rightarrow> string" where
  "strip_py s = rev (dropWhile isspace_chr (rev (dropWhile isspace_chr s)))"

text \<open>
  \<open>line.split()\<close> with no argument: the maximal runs of non-whitespace characters, in
  order; \<open>cur\<close> is the token being read.
\<close>

fun split_from :: "string \<Rightarrow> string \<Rightarrow> string list" where
  "split_from cur [] = (if cur = [] then [] else [cur])"
| "split_from cur (c # cs) =
     (if isspace_chr c then (if cur = [] then split_from [] cs else cur # split_from [] cs)
      else split_from (cur @ [c]) cs)"

definition split_py :: "string \<Rightarrow> string list" where
  "split_py s = split_from [] s"

definition startswith :: "string \<Rightarrow> string \<Rightarrow> bool" where
  "startswith s p = (take (length p) s = p)"

text \<open>
  \<open>str.isdigit()\<close>: true when the string is not empty and every character is a digit.
  Below code point 256 the digits are \<open>0\<close>..\<open>9\<close> and the superscripts U+00B2, U+00B3
  and U+00B9; \<open>int()\<close> accepts only the decimal ones and raises \<open>ValueError\<close> on a
  superscript.
\<close>

definition isdecimal_chr :: "char \<Rightarrow> bool" where
  "isdecimal_chr c = (48 \<le> (of_char c :: nat) \<and> (of_char c :: nat) \<le> 57)"

definition isdigit_chr :: "char \<Rightarrow> bool" where
  "isdigit_chr c = (isdecimal_chr c \<or> (of_char c :: nat) \<in> {178, 179, 185})"

definition isdigit :: "string \<Rightarrow> bool" where
  "isdigit s = (s \<noteq> [] \<and> list_all isdigit_chr s)"

definition digit_val :: "char \<Rightarrow> int" where
  "digit_val c = of_char c - 48"

definition int_py :: "string \<Rightarrow> error + int" where
  "int_py s =
     (if s \<noteq> [] \<and> list_all isdecimal_chr s
      then Inr (foldl (\<lambda>n c. 10 * n + digit_val c) 0 s)
      else Inl ValueError)"

text \<open>\<open>xs[i]\<close> for a non-negative index: \<open>IndexError\<close> out of range.\<close>

definition getitem :: "'a list \<Rightarrow> nat \<Rightarrow> error + 'a" where
  "getitem xs i = (if i < length xs then Inr (xs ! i) else Inl IndexError)"

text \<open>\<open>xs.index(x)\<close>: the first position of \<open>x\<close>, \<open>ValueError\<close> when it is absent.\<close>

fun index_py :: "'a list \<Rightarrow> 'a \<Rightarrow> error + nat" where
  "index_py [] x = Inl ValueError"
| "index_py (y # ys) x =
     (if y = x then Inr 0 else bindE (index_py ys x) (\<lambda>i. Inr (Suc i)))"

text \<open>The \<open>%i\<close> conversion: the decimal digits, after a minus sign when negative.\<close>

fun str_nat :: "nat \<Rightarrow> string" where
  "str_nat n =
     (if n < 10 then [char_of (48 + n)]
      else str_nat (n div 10) @ [char_of (48 + n mod 10)])"

definition fmt_i :: "int \<Rightarrow> string" where
  "fmt_i i = (if i < 0 then CHR ''-'' # str_nat (nat (- i)) else str_nat (nat i))"

text \<open>
  A \<open>dict\<close> is an association list in insertion order with one pair per key:
  \<open>d[k] = v\<close> replaces the value of an existing key in place and appends a new key;
  \<open>d[k]\<close> raises \<open>KeyError\<close> when the key is absent.
\<close>

fun dict_set :: "('k \<times> 'v) list \<Rightarrow> 'k \<Rightarrow> 'v \<Rightarrow> ('k \<times> 'v) list" where
  "dict_set [] k v = [(k, v)]"
| "dict_set ((k', v') # d) k v =
     (if k' = k then (k', v) # d else (k', v') # dict_set d k v)"

definition dict_get :: "('k \<times> 'v) list \<Rightarrow> 'k \<Rightarrow> error + 'v" where
  "dict_get d k = (case map_of d k of None \<Rightarrow> Inl KeyError | Some v \<Rightarrow> Inr v)"

section \<open>The record parser\<close>

text \<open>The module constant \<open>_COLUMNS\<close>: the 18 canonical column names, by position.\<close>

definition COLUMNS :: "string list" where
  "COLUMNS =
     [''MODEL_NAME'', ''MODEL_ACCESSION'', ''SEQUENCE_NAME'',
      ''SEQUENCE_ACCESSION'', ''TYPE_OF_MODEL'', ''MODEL_START_POSITION'',
      ''MODEL_END_POSITION'', ''SEQUENCE_START_POSITION'',
      ''SEQUENCE_END_POSITION'', ''STRAND'', ''TRUNCATED'', ''PASS'',
      ''GC_CONTENT'', ''BIAS'', ''BITSCORE'', ''EVALUE'', ''INC'', ''DESCRIPTION'']"

text \<open>\<open>fields[_COLUMNS.index(key)]\<close>.\<close>

definition column :: "string list \<Rightarrow> string \<Rightarrow> error + string" where
  "column fields key = bindE (index_py COLUMNS key) (getitem fields)"

text \<open>
  Modelled from the spec: \<open>Feature\<close> of scikit-bio, the immutable, hashable attribute
  set that serves as dictionary key, with structural equality over all its fields.
  Every hit of one run inserts the same keys in the same order, so the attribute
  dictionary of a hit, an association list, itself stands for its \<open>Feature\<close>, and two
  hits have the same key exactly when their attributes agree. An annotation collection
  maps each \<open>Feature\<close> to its list of intervals.
\<close>

type_synonym attributes = "(string \<times> string) list"

type_synonym interval = "int \<times> int"

type_synonym annotations = "(attributes \<times> interval list) list"

definition apostrophe :: string where
  "apostrophe = [CHR 0x27]"

text \<open>The messages of the format errors, as the \<open>%\<close> formatting builds them.\<close>

definition start_message :: "nat \<Rightarrow> string \<Rightarrow> string" where
  "start_message i f =
     ''Column'' @ '' '' @ fmt_i (int i) @ '' '' @
     ''must be an integer value for the start position of the hit. Here, it is'' @
     '' '' @ apostrophe @ f @ apostrophe @ ''.''"

definition forward_message :: "int \<Rightarrow> int \<Rightarrow> string" where
  "forward_message s e =
     ''On the forward strand (+), start position of a hit must always be smaller than its end position. This is not true for the hit between'' @
     '' '' @ fmt_i s @ '' '' @ ''and'' @ '' '' @ fmt_i e @ '' '' @
     ''. It might be, that this hit is in fact on the reverse strand. Please check strand orientation and positions.''"

definition reverse_message :: "int \<Rightarrow> int \<Rightarrow> string" where
  "reverse_message s e =
     ''On the reverse strand (-), start position of a hit must always be larger than its end position. This is not true for the hit between'' @
     '' '' @ fmt_i s @ '' '' @ ''and'' @ '' '' @ fmt_i e @ '' '' @
     ''. It might be, that this hit is in fact on the forward strand. Please check strand orientation and positions.''"

definition strand_message :: "string \<Rightarrow> nat \<Rightarrow> string" where
  "strand_message c i =
     ''Unknown strand character'' @ '' '' @ apostrophe @ c @ apostrophe @ '' '' @
     ''in column'' @ '' '' @ fmt_i (int i) @ ''. '' @
     ''Valid characters are '' @ apostrophe @ ''+'' @ apostrophe @
     '' for the forward strand and '' @ apostrophe @ ''-'' @ apostrophe @
     '' for the reverse strand.''"

definition program_message :: string where
  "program_message =
     ''Argument '' @ apostrophe @ ''program'' @ apostrophe @ '' must be either '' @
     apostrophe @ ''CMSEARCH'' @ apostrophe @ '' or '' @ apostrophe @ ''CMSCAN'' @
     apostrophe @ ''!''"

text \<open>
  Lines 220-230: the start position. The field is read, tested with \<open>isdigit()\<close> and
  converted with \<open>int()\<close>; otherwise the format error is raised.
\<close>

definition hitStart :: "string list \<Rightarrow> error + int" where
  "hitStart fields =
     bindE (column fields ''SEQUENCE_START_POSITION'') (\<lambda>f.
       if isdigit f then int_py f
       else bindE (index_py COLUMNS ''SEQUENCE_START_POSITION'') (\<lambda>i.
              Inl (CmscanFormatError (start_message i f))))"

text \<open>
  Lines 232-243: the end position. In the failure branch the format string
  \<open>"%s %i %s '%s'."\<close> has four conversions and is given a tuple of five values (the last
  one is \<open>"."\<close>), so the \<open>%\<close> operator raises \<open>TypeError\<close> ("not all arguments converted
  during string formatting") before \<open>CmscanFormatError\<close> is constructed.
\<close>

definition hitEnd :: "string list \<Rightarrow> error + int" where
  "hitEnd fields =
     bindE (column fields ''SEQUENCE_END_POSITION'') (\<lambda>f.
       if isdigit f then int_py f
       else bindE (index_py COLUMNS ''SEQUENCE_END_POSITION'') (\<lambda>i. Inl TypeError))"

text \<open>
  Lines 245-279: the strand, and the interval in ascending order (swapped on the
  reverse strand).
\<close>

definition orient :: "string list \<Rightarrow> int \<Rightarrow> int \<Rightarrow> error + interval" where
  "orient fields hs he =
     bindE (column fields ''STRAND'') (\<lambda>hitOrientation.
       if hitOrientation = ''+'' then
         (if hs > he then Inl (CmscanFormatError (forward_message hs he))
          else Inr (hs, he))
       else if hitOrientation = ''-'' then
         (if hs < he then Inl (CmscanFormatError (reverse_message hs he))
          else Inr (he, hs))
       else bindE (index_py COLUMNS ''STRAND'') (\<lambda>i.
              Inl (CmscanFormatError (strand_message hitOrientation i))))"

text \<open>
  Lines 285-297: the name and accession of the sequence and of the model. The source
  compares \<open>program\<close> with the two literals by identity; both are interned string
  constants, so identity is equality here.
\<close>

definition name_columns :: "string \<Rightarrow> string list \<Rightarrow> error + attributes" where
  "name_columns program fields =
     (if program = ''CMSEARCH'' then
        bindE (getitem fields 0) (\<lambda>f0. bindE (getitem fields 1) (\<lambda>f1.
        bindE (getitem fields 2) (\<lambda>f2. bindE (getitem fields 3) (\<lambda>f3.
          Inr (dict_set (dict_set (dict_set (dict_set []
                 ''SEQUENCE_NAME'' f0) ''SEQUENCE_ACCESSION'' f1)
                 ''MODEL_NAME'' f2) ''MODEL_ACCESSION'' f3)))))
      else if program = ''CMSCAN'' then
        bindE (getitem fields 2) (\<lambda>f2. bindE (getitem fields 3) (\<lambda>f3.
        bindE (getitem fields 0) (\<lambda>f0. bindE (getitem fields 1) (\<lambda>f1.
          Inr (dict_set (dict_set (dict_set (dict_set []
                 ''SEQUENCE_NAME'' f2) ''SEQUENCE_ACCESSION'' f3)
                 ''MODEL_NAME'' f0) ''MODEL_ACCESSION'' f1)))))
      else Inl (CmscanFormatError program_message))"

text \<open>Lines 300-308: every column not handled above is copied under its own name.\<close>

definition handled :: "string list" where
  "handled =
     [''SEQUENCE_START_POSITION'', ''SEQUENCE_END_POSITION'', ''SEQUENCE_NAME'',
      ''SEQUENCE_ACCESSION'', ''MODEL_NAME'', ''MODEL_ACCESSION'']"

fun copy_columns :: "string list \<Rightarrow> string list \<Rightarrow> attributes \<Rightarrow> error + attributes" where
  "copy_columns [] fields attrs = Inr attrs"
| "copy_columns (key # keys) fields attrs =
     (if key \<in> set handled then copy_columns keys fields attrs
      else bindE (column fields key) (\<lambda>v.
             copy_columns keys fields (dict_set attrs key v)))"

text \<open>
  Lines 215-308, the work on one data line: its attributes and its interval, or the
  exception it raises.
\<close>

definition parse_hit :: "string \<Rightarrow> string \<Rightarrow> error + (attributes \<times> interval)" where
  "parse_hit program line =
     (let fields = split_py line in
      bindE (hitStart fields) (\<lambda>hs.
      bindE (hitEnd fields) (\<lambda>he.
      bindE (orient fields hs he) (\<lambda>iv.
      bindE (name_columns program fields) (\<lambda>attrs0.
      bindE (copy_columns COLUMNS fields attrs0) (\<lambda>attrs.
        Inr (attrs, iv)))))))"

text \<open>
  Modelled from the spec: \<open>_line_generator\<close> of scikit-bio, the line-supplying stream
  with the options to skip blank lines and to strip each line; a line is blank when
  it holds nothing but whitespace.
\<close>

definition blank :: "string \<Rightarrow> bool" where
  "blank l = list_all isspace_chr l"

definition line_generator :: "string list \<Rightarrow> bool \<Rightarrow> bool \<Rightarrow> string list" where
  "line_generator fh skip_blanks strip =
     filter (\<lambda>l. \<not> (skip_blanks \<and> blank l))
       (map (\<lambda>l. if strip then strip_py l else l) fh)"

text \<open>
  Lines 211-323, the \<open>for\<close> loop of the generator. The state is \<open>currentsequence\<close>
  (\<open>None\<close> for the initial \<open>False\<close>, which no string is identical to) and
  \<open>annotations\<close>. The result is the list of the collections yielded inside the loop,
  and either the exception that ended the loop or the state at its normal end.
\<close>

fun records_loop ::
  "string \<Rightarrow> string list \<Rightarrow> string option \<times> annotations \<Rightarrow>
     annotations list \<times> (error + (string option \<times> annotations))" where
  "records_loop program [] st = ([], Inr st)"
| "records_loop program (line # rest) (currentsequence, ann) =
     (if startswith line ''#'' then records_loop program rest (currentsequence, ann)
      else
        (case parse_hit program line of
           Inl e \<Rightarrow> ([], Inl e)
         | Inr (attrs, iv) \<Rightarrow>
             (case dict_get attrs ''SEQUENCE_NAME'' of
                Inl e \<Rightarrow> ([], Inl e)
              | Inr name \<Rightarrow>
                  if currentsequence \<noteq> Some name \<and> currentsequence \<noteq> None then
                    (case records_loop program rest (Some name, dict_set [] attrs [iv]) of
                       (ys, r) \<Rightarrow> (ann # ys, r))
                  else records_loop program rest (Some name, dict_set ann attrs [iv]))))"

text \<open>
  \<open>_parse_records\<close>: the variant is the local constant \<open>'CMSCAN'\<close> (line 210), the lines
  come stripped and without the blank ones (line 213), and after the loop the
  accumulator is yielded (line 325). The result is the list of everything the generator
  yields, and the exception that ended it, if any.
\<close>

definition parse_records :: "string list \<Rightarrow> annotations list \<times> error option" where
  "parse_records fh =
     (case records_loop ''CMSCAN'' (line_generator fh True True) (None, []) of
        (ys, Inl e) \<Rightarrow> (ys, Some e)
      | (ys, Inr (currentsequence, ann)) \<Rightarrow> (ys @ [ann], None))"

section \<open>The sniffer\<close>

text \<open>
  Modelled from the spec: \<open>_too_many_blanks\<close> of scikit-bio, the predicate that the
  leading run of blank lines is longer than the bound.
\<close>

definition too_many_blanks :: "string list \<Rightarrow> nat \<Rightarrow> bool" where
  "too_many_blanks fh max_blanks =
     (length (takeWhile (\<lambda>l. l = []) (line_generator fh False True)) > max_blanks)"

text \<open>\<open>_cmscan_sniffer\<close>: the verdict and the empty dictionary of options.\<close>

definition cmscan_sniffer :: "string list \<Rightarrow> bool \<times> (string \<times> string) list" where
  "cmscan_sniffer fh =
     (if too_many_blanks fh 5 then (False, [])
      else
        (case line_generator fh True False of
           [] \<Rightarrow> (False, [])
         | line # _ \<Rightarrow>
             if startswith line ''#target name'' then (True, []) else (False, [])))"

section \<open>Derived notions used in the statements\<close>

text \<open>
  The attribute dictionary that the \<open>CMSCAN\<close> branch and the copying loop build from
  the fields of a line, spelled out; \<open>parse_hit_CMSCAN\<close> below proves that this is what
  the code computes. The start and end positions are not among its keys.
\<close>

definition cmscan_attributes :: "string list \<Rightarrow> attributes" where
  "cmscan_attributes f =
     [(''SEQUENCE_NAME'', f ! 2), (''SEQUENCE_ACCESSION'', f ! 3),
      (''MODEL_NAME'', f ! 0), (''MODEL_ACCESSION'', f ! 1),
      (''TYPE_OF_MODEL'', f ! 4), (''MODEL_START_POSITION'', f ! 5),
      (''MODEL_END_POSITION'', f ! 6), (''STRAND'', f ! 9),
      (''TRUNCATED'', f ! 10), (''PASS'', f ! 11), (''GC_CONTENT'', f ! 12),
      (''BIAS'', f ! 13), (''BITSCORE'', f ! 14), (''EVALUE'', f ! 15),
      (''INC'', f ! 16), (''DESCRIPTION'', f ! 17)]"

text \<open>
  A hit is what one data line contributes: its attribute dictionary and its interval.
  \<open>seq_name\<close> is the value the grouping compares, \<open>attributes['SEQUENCE_NAME']\<close>.
\<close>

type_synonym hit = "attributes \<times> interval"

definition seq_name :: "hit \<Rightarrow> string option" where
  "seq_name h = map_of (fst h) ''SEQUENCE_NAME''"

text \<open>
  The hits of the data lines in file order, up to the first line that raises, and the
  exception raised there. Comment lines contribute nothing.
\<close>

fun parsed_hits :: "string \<Rightarrow> string list \<Rightarrow> hit list \<times> error option" where
  "parsed_hits program [] = ([], None)"
| "parsed_hits program (line # rest) =
     (if startswith line ''#'' then parsed_hits program rest
      else
        (case parse_hit program line of
           Inl e \<Rightarrow> ([], Some e)
         | Inr h \<Rightarrow> (case parsed_hits program rest of (hs, r) \<Rightarrow> (h # hs, r))))"

text \<open>The grouping of lines 313-323 alone, run over hits that are already parsed.\<close>

fun group_hits ::
  "hit list \<Rightarrow> string option \<times> annotations \<Rightarrow>
     annotations list \<times> (string option \<times> annotations)" where
  "group_hits [] st = ([], st)"
| "group_hits (h # hs) (currentsequence, ann) =
     (if currentsequence \<noteq> seq_name h \<and> currentsequence \<noteq> None then
        (case group_hits hs (seq_name h, dict_set [] (fst h) [snd h]) of
           (ys, st) \<Rightarrow> (ann # ys, st))
      else group_hits hs (seq_name h, dict_set ann (fst h) [snd h]))"

text \<open>
  The specification's side of the grouping. \<open>runs key xs\<close> cuts \<open>xs\<close> into its maximal
  runs of consecutive elements with the same key, in order; \<open>collect\<close> is the
  annotation collection built from the hits of one run, each hit stored under its
  attribute set.
\<close>

fun runs :: "('a \<Rightarrow> 'k) \<Rightarrow> 'a list \<Rightarrow> 'a list list" where
  "runs key [] = []"
| "runs key (x # xs) =
     (case runs key xs of
        [] \<Rightarrow> [[x]]
      | r # rs \<Rightarrow> if key x = key (hd r) then (x # r) # rs else [x] # r # rs)"

definition collect :: "hit list \<Rightarrow> annotations" where
  "collect r = foldl (\<lambda>ann h. dict_set ann (fst h) [snd h]) [] r"

text \<open>
  The data lines of a file: the lines that are neither blank nor, once stripped, start
  with \<open>#\<close>. \<open>total_entries\<close> counts the entries of all yielded collections.
\<close>

definition data_line :: "string \<Rightarrow> bool" where
  "data_line l = (\<not> blank l \<and> \<not> startswith (strip_py l) ''#'')"


text \<open>
  The sniffer's specification speaks of the first non-blank line and of the leading
  run of blank lines of the input.
\<close>

definition first_nonblank :: "string list \<Rightarrow> string option" where
  "first_nonblank fh = (case filter (\<lambda>l. \<not> blank l) fh of [] \<Rightarrow> None | l # _ \<Rightarrow> Some l)"

definition leading_blanks :: "string list \<Rightarrow> nat" where
  "leading_blanks fh = length (takeWhile blank fh)"



definition described_line :: string where
  "described_line = ''LSU_rRNA_bacteria RF02541 gi|15829254|ref|NC_002695.1| - cm 1 2925 4977823 4980727 + no 1 0.53 45.4 2889.8 0 ! Bacterial large subunit ribosomal RNA''"

definition cmsearch_line :: string where
  "cmsearch_line = ''gi|15829254|ref|NC_002695.1| - LSU_rRNA_bacteria RF02541 cm 1 2925 4977823 4980727 + no 1 0.53 45.4 2889.8 0 ! -''"

definition reverse_line :: string where
  "reverse_line = ''tRNA RF00005 seq1 - cm 1 71 500 300 - no 1 0.53 0.0 60.1 1e-10 ! -''"

definition forward_line :: string where
  "forward_line = ''tRNA RF00005 seq1 - cm 1 71 300 500 + no 1 0.53 0.0 60.1 1e-10 ! -''"

definition bad_start_line :: string where
  "bad_start_line = ''tRNA RF00005 seq1 - cm 1 71 abc 500 + no 1 0.53 0.0 60.1 1e-10 ! -''"

definition bad_end_line :: string where
  "bad_end_line = ''tRNA RF00005 seq1 - cm 1 71 300 abc + no 1 0.53 0.0 60.1 1e-10 ! -''"



definition forward_bad_line :: string where
  "forward_bad_line = ''tRNA RF00005 seq1 - cm 1 71 500 300 + no 1 0.53 0.0 60.1 1e-10 ! -''"

definition newline :: string where
  "newline = [CHR 0x0A]"

definition blank_prefixed_input :: "string list" where
  "blank_prefixed_input =
     [newline, newline, newline, newline, newline, newline,
      ''#target name           accession query name'' @ newline]"

definition header_input :: "string list" where
  "header_input =
     [newline, ''   '' @ newline,
      ''#target name           accession query name'' @ newline,
      ''#--------------------- ---------'' @ newline]"

definition seq2_line :: string where
  "seq2_line = ''tRNA RF00005 seq2 - cm 1 71 10 80 + no 1 0.53 0.0 60.1 1e-10 ! -''"

definition interrupted_input :: "string list" where
  "interrupted_input =
     [''#target name accession query name'' @ newline,
      forward_line @ newline, reverse_line @ newline,
      seq2_line @ newline, newline, forward_line @ newline]"


section \<open>Facts about the primitives\<close>

text \<open>
  The character tests written as comparisons with the characters themselves; these
  are the equations used when a concrete line is evaluated.
\<close>

lemma chr_eq_nat: "c = d \<longleftrightarrow> (of_char c :: nat) = of_char d"
  by simp

lemma isspace_chr_code [code]:
  "isspace_chr c = (c = CHR 0x20 \<or> c = CHR 0x0A \<or> c = CHR 0x09 \<or> c = CHR 0x0B \<or> c = CHR 0x0C \<or>
     c = CHR 0x0D \<or> c = CHR 0x1C \<or> c = CHR 0x1D \<or> c = CHR 0x1E \<or> c = CHR 0x1F \<or>
     c = CHR 0x85 \<or> c = CHR 0xA0)"
  unfolding isspace_chr_def by (auto simp: chr_eq_nat)

lemma isdecimal_chr_code [code]:
  "isdecimal_chr c = (c = CHR ''0'' \<or> c = CHR ''1'' \<or> c = CHR ''2'' \<or> c = CHR ''3'' \<or>
     c = CHR ''4'' \<or> c = CHR ''5'' \<or> c = CHR ''6'' \<or> c = CHR ''7'' \<or> c = CHR ''8'' \<or>
     c = CHR ''9'')"
proof -
  have "isdecimal_chr c \<longleftrightarrow> (of_char c :: nat) \<in> {48, 49, 50, 51, 52, 53, 54, 55, 56, 57}"
    unfolding isdecimal_chr_def by (simp, arith)
  then show ?thesis by (auto simp: chr_eq_nat)
qed

lemma index_start: "index_py COLUMNS ''SEQUENCE_START_POSITION'' = Inr 7"
  by (simp add: COLUMNS_def bindE_def)

lemma index_end: "index_py COLUMNS ''SEQUENCE_END_POSITION'' = Inr 8"
  by (simp add: COLUMNS_def bindE_def)

lemma index_strand: "index_py COLUMNS ''STRAND'' = Inr 9"
  by (simp add: COLUMNS_def bindE_def)

lemma column_start: "column fields ''SEQUENCE_START_POSITION'' = getitem fields 7"
  by (simp add: column_def index_start bindE_def)

lemma column_end: "column fields ''SEQUENCE_END_POSITION'' = getitem fields 8"
  by (simp add: column_def index_end bindE_def)

lemma column_strand: "column fields ''STRAND'' = getitem fields 9"
  by (simp add: column_def index_strand bindE_def)

lemma split_from_spaces:
  "list_all isspace_chr ws \<Longrightarrow> split_from cur ws = (if cur = [] then [] else [cur])"
  by (induction ws arbitrary: cur) auto

lemma split_from_append_spaces:
  "list_all isspace_chr ws \<Longrightarrow> split_from cur (s @ ws) = split_from cur s"
  by (induction s arbitrary: cur) (auto simp: split_from_spaces)

lemma split_from_dropWhile:
  "split_from [] (dropWhile isspace_chr s) = split_from [] s"
  by (induction s) auto

lemma rev_dropWhile_rev:
  "s = rev (dropWhile P (rev s)) @ rev (takeWhile P (rev s))"
  by (metis rev_append rev_rev_ident takeWhile_dropWhile_id)

lemma split_py_strip: "split_py (strip_py l) = split_py l"
proof -
  let ?d = "dropWhile isspace_chr l"
  have all: "list_all isspace_chr (rev (takeWhile isspace_chr (rev ?d)))"
    by (simp add: list_all_iff) (meson set_takeWhileD)
  have "split_from [] (rev (dropWhile isspace_chr (rev ?d))) =
        split_from [] (rev (dropWhile isspace_chr (rev ?d)) @ rev (takeWhile isspace_chr (rev ?d)))"
    using split_from_append_spaces [OF all] by simp
  also have "\<dots> = split_from [] ?d"
    using rev_dropWhile_rev [of ?d isspace_chr] by simp
  finally show ?thesis
    by (simp add: split_py_def strip_py_def split_from_dropWhile)
qed

lemma dropWhile_all_Nil: "(\<forall>x\<in>set (dropWhile P l). P x) \<longleftrightarrow> dropWhile P l = []"
proof
  assume a: "\<forall>x\<in>set (dropWhile P l). P x"
  show "dropWhile P l = []"
  proof (rule ccontr)
    assume n: "dropWhile P l \<noteq> []"
    then have "\<not> P (hd (dropWhile P l))" by (rule hd_dropWhile)
    moreover have "hd (dropWhile P l) \<in> set (dropWhile P l)" using n by simp
    ultimately show False using a by blast
  qed
qed (auto dest: set_dropWhileD)

lemma blank_strip: "blank l \<longleftrightarrow> strip_py l = []"
  by (simp add: blank_def strip_py_def list_all_iff dropWhile_eq_Nil_conv dropWhile_all_Nil)

lemma split_from_Nil: "split_from cur s = [] \<longleftrightarrow> cur = [] \<and> list_all isspace_chr s"
  by (induction s arbitrary: cur) auto

lemma blank_split: "blank l \<longleftrightarrow> split_py l = []"
  by (simp add: blank_def split_py_def split_from_Nil)

lemma blank_strip_strip: "blank (strip_py l) \<longleftrightarrow> blank l"
  by (simp add: blank_split split_py_strip)

section \<open>Facts about one data line\<close>

lemma hitStart_cases:
  "hitStart f =
     (if length f \<le> 7 then Inl IndexError
      else if isdigit (f ! 7) then int_py (f ! 7)
      else Inl (CmscanFormatError (start_message 7 (f ! 7))))"
  by (simp add: hitStart_def column_start index_start getitem_def bindE_def)

lemma hitEnd_cases:
  "hitEnd f =
     (if length f \<le> 8 then Inl IndexError
      else if isdigit (f ! 8) then int_py (f ! 8)
      else Inl TypeError)"
  by (simp add: hitEnd_def column_end index_end getitem_def bindE_def)

lemma orient_cases:
  "orient f s e =
     (if length f \<le> 9 then Inl IndexError
      else if f ! 9 = ''+'' then
        (if s > e then Inl (CmscanFormatError (forward_message s e)) else Inr (s, e))
      else if f ! 9 = ''-'' then
        (if s < e then Inl (CmscanFormatError (reverse_message s e)) else Inr (e, s))
      else Inl (CmscanFormatError (strand_message (f ! 9) 9)))"
  by (simp add: orient_def column_strand index_strand getitem_def bindE_def)

lemma name_columns_CMSCAN:
  "name_columns ''CMSCAN'' f =
     (if length f < 4 then Inl IndexError
      else Inr [(''SEQUENCE_NAME'', f ! 2), (''SEQUENCE_ACCESSION'', f ! 3),
                (''MODEL_NAME'', f ! 0), (''MODEL_ACCESSION'', f ! 1)])"
  by (simp add: name_columns_def getitem_def bindE_def)

lemma name_columns_CMSEARCH:
  "name_columns ''CMSEARCH'' f =
     (if length f < 4 then Inl IndexError
      else Inr [(''SEQUENCE_NAME'', f ! 0), (''SEQUENCE_ACCESSION'', f ! 1),
                (''MODEL_NAME'', f ! 2), (''MODEL_ACCESSION'', f ! 3)])"
  by (simp add: name_columns_def getitem_def bindE_def)

lemma column_copied:
  "column f ''TYPE_OF_MODEL'' = getitem f 4"
  "column f ''MODEL_START_POSITION'' = getitem f 5"
  "column f ''MODEL_END_POSITION'' = getitem f 6"
  "column f ''TRUNCATED'' = getitem f 10"
  "column f ''PASS'' = getitem f 11"
  "column f ''GC_CONTENT'' = getitem f 12"
  "column f ''BIAS'' = getitem f 13"
  "column f ''BITSCORE'' = getitem f 14"
  "column f ''EVALUE'' = getitem f 15"
  "column f ''INC'' = getitem f 16"
  "column f ''DESCRIPTION'' = getitem f 17"
  by (simp_all add: column_def COLUMNS_def bindE_def eval_nat_numeral)

lemma copy_columns_named:
  "copy_columns COLUMNS f
     [(''SEQUENCE_NAME'', a), (''SEQUENCE_ACCESSION'', b),
      (''MODEL_NAME'', c), (''MODEL_ACCESSION'', d)] =
     (if length f < 18 then Inl IndexError
      else Inr ([(''SEQUENCE_NAME'', a), (''SEQUENCE_ACCESSION'', b),
                 (''MODEL_NAME'', c), (''MODEL_ACCESSION'', d)] @ drop 4 (cmscan_attributes f)))"
  by (simp add: COLUMNS_def handled_def column_copied column_strand getitem_def bindE_def
        cmscan_attributes_def)

lemma parse_hit_CMSCAN:
  "parse_hit ''CMSCAN'' line =
     (let f = split_py line in
      bindE (hitStart f) (\<lambda>hs. bindE (hitEnd f) (\<lambda>he. bindE (orient f hs he) (\<lambda>iv.
        if length f < 18 then Inl IndexError else Inr (cmscan_attributes f, iv)))))"
proof -
  have "bindE (name_columns ''CMSCAN'' f) (\<lambda>attrs0.
          bindE (copy_columns COLUMNS f attrs0) (\<lambda>attrs. Inr (attrs, iv))) =
        (if length f < 18 then Inl IndexError else Inr (cmscan_attributes f, iv))"
    for f and iv :: interval
    by (simp add: name_columns_CMSCAN copy_columns_named bindE_def cmscan_attributes_def)
  then show ?thesis
    by (simp add: parse_hit_def Let_def)
qed

section \<open>Facts about the loop\<close>

lemma parse_hit_seq_name:
  assumes "parse_hit ''CMSCAN'' line = Inr h"
  shows "h = (cmscan_attributes (split_py line), snd h)" "seq_name h = Some (split_py line ! 2)"
    "dict_get (fst h) ''SEQUENCE_NAME'' = Inr (split_py line ! 2)"
    "18 \<le> length (split_py line)"
proof -
  from assms show 1: "h = (cmscan_attributes (split_py line), snd h)"
    by (auto simp: parse_hit_CMSCAN Let_def bindE_def split: sum.splits if_splits)
  have "map_of (cmscan_attributes f) ''SEQUENCE_NAME'' = Some (f ! 2)" for f
    by (simp add: cmscan_attributes_def)
  then show "seq_name h = Some (split_py line ! 2)"
    "dict_get (fst h) ''SEQUENCE_NAME'' = Inr (split_py line ! 2)"
    using 1 by (simp_all add: seq_name_def dict_get_def) (metis fst_conv option.simps(5))+
  from assms show "18 \<le> length (split_py line)"
    by (auto simp: parse_hit_CMSCAN Let_def bindE_def split: sum.splits if_splits)
qed

lemma records_loop_group_hits:
  "records_loop ''CMSCAN'' lines (cur, ann) =
     (case parsed_hits ''CMSCAN'' lines of
        (hs, r) \<Rightarrow>
          (case group_hits hs (cur, ann) of
             (ys, st) \<Rightarrow> (ys, case r of None \<Rightarrow> Inr st | Some e \<Rightarrow> Inl e)))"
proof (induction lines arbitrary: cur ann)
  case Nil
  show ?case by simp
next
  case (Cons line rest)
  show ?case
  proof (cases "startswith line ''#''")
    case True
    then show ?thesis using Cons.IH by simp
  next
    case False
    show ?thesis
    proof (cases "parse_hit ''CMSCAN'' line")
      case (Inl e)
      then show ?thesis using False by simp
    next
      case (Inr h)
      obtain attrs iv where h: "h = (attrs, iv)" by (cases h)
      have n: "dict_get attrs ''SEQUENCE_NAME'' = Inr (split_py line ! 2)"
        and s: "seq_name h = Some (split_py line ! 2)"
        using parse_hit_seq_name [OF Inr] h by simp_all
      show ?thesis
        using False Inr h n s Cons.IH
        by (simp split: prod.splits)
    qed
  qed
qed

lemma parsed_hits_named:
  "parsed_hits ''CMSCAN'' lines = (hs, r) \<Longrightarrow> h \<in> set hs \<Longrightarrow> seq_name h \<noteq> None"
proof (induction lines arbitrary: hs)
  case Nil
  then show ?case by simp
next
  case (Cons line rest)
  then show ?case
    by (auto split: if_splits sum.splits prod.splits simp: parse_hit_seq_name(2))
qed

section \<open>The grouping as maximal runs\<close>

lemma runs_Nil_iff: "runs key xs = [] \<longleftrightarrow> xs = []"
  by (cases xs) (auto split: list.splits)

lemma concat_runs: "concat (runs key xs) = xs"
  by (induction xs) (auto split: list.splits)

lemma runs_nonempty: "r \<in> set (runs key xs) \<Longrightarrow> r \<noteq> []"
  by (induction xs arbitrary: r) (auto split: list.splits if_splits)

lemma runs_same_key: "r \<in> set (runs key xs) \<Longrightarrow> h \<in> set r \<Longrightarrow> key h = key (hd r)"
  by (induction xs arbitrary: r h) (auto split: list.splits if_splits)

lemma hd_hd_runs: "xs \<noteq> [] \<Longrightarrow> hd (hd (runs key xs)) = hd xs"
  by (cases xs) (auto split: list.splits)

lemma runs_adjacent_differ:
  "Suc i < length (runs key xs) \<Longrightarrow>
     key (hd (runs key xs ! i)) \<noteq> key (hd (runs key xs ! Suc i))"
proof (induction xs arbitrary: i)
  case Nil
  then show ?case by simp
next
  case (Cons x xs)
  show ?case
  proof (cases "runs key xs")
    case Nil
    then show ?thesis using Cons.prems by simp
  next
    case (Cons r rs)
    show ?thesis
    proof (cases "key x = key (hd r)")
      case True
      then show ?thesis
        using Cons.prems Cons.IH [of i] Cons
        by (cases i) auto
    next
      case False
      then show ?thesis
        using Cons.prems Cons.IH [of "i - 1"] Cons
        by (cases i) auto
    qed
  qed
qed

lemma runs_const:
  "r \<noteq> [] \<Longrightarrow> \<forall>h\<in>set r. key h = c \<Longrightarrow> runs key r = [r]"
proof (induction r)
  case Nil
  then show ?case by simp
next
  case (Cons x r)
  then show ?case by (cases r) auto
qed

lemma runs_append_new:
  "r \<noteq> [] \<Longrightarrow> \<forall>h\<in>set r. key h = c \<Longrightarrow> key x \<noteq> c \<Longrightarrow>
     runs key (r @ x # xs) = r # runs key (x # xs)"
proof (induction r)
  case Nil
  then show ?case by simp
next
  case (Cons y r)
  show ?case
  proof (cases r)
    case Nil
    have "hd (hd (runs key (x # xs))) = x"
      using hd_hd_runs [of "x # xs" key] by simp
    then show ?thesis using Cons.prems Nil
      by (auto split: list.splits)
  next
    case (Cons z r')
    then show ?thesis using Cons.prems Cons.IH by auto
  qed
qed

lemma collect_snoc: "collect (r @ [h]) = dict_set (collect r) (fst h) [snd h]"
  by (simp add: collect_def)

lemma group_hits_runs:
  "r0 \<noteq> [] \<Longrightarrow> \<forall>h\<in>set r0. seq_name h = c \<Longrightarrow> c \<noteq> None \<Longrightarrow>
   \<forall>h\<in>set hs. seq_name h \<noteq> None \<Longrightarrow>
   group_hits hs (c, collect r0) =
     (map collect (butlast (runs seq_name (r0 @ hs))),
      (seq_name (last (r0 @ hs)), collect (last (runs seq_name (r0 @ hs)))))"
proof (induction hs arbitrary: r0 c)
  case Nil
  then show ?case by (simp add: runs_const [of r0 seq_name c])
next
  case (Cons h hs)
  show ?case
  proof (cases "seq_name h = c")
    case True
    have "group_hits (h # hs) (c, collect r0) = group_hits hs (c, collect (r0 @ [h]))"
      using True by (simp add: collect_snoc)
    also have "\<dots> = (map collect (butlast (runs seq_name ((r0 @ [h]) @ hs))),
      (seq_name (last ((r0 @ [h]) @ hs)), collect (last (runs seq_name ((r0 @ [h]) @ hs)))))"
      using Cons.prems True by (intro Cons.IH) auto
    finally show ?thesis by simp
  next
    case False
    have one: "collect [h] = dict_set [] (fst h) [snd h]"
      by (simp add: collect_def)
    have ne: "runs seq_name (h # hs) \<noteq> []"
      by (metis runs_Nil_iff list.distinct(1))
    have IH: "group_hits hs (seq_name h, collect [h]) =
      (map collect (butlast (runs seq_name ([h] @ hs))),
       (seq_name (last ([h] @ hs)), collect (last (runs seq_name ([h] @ hs)))))"
      using Cons.prems by (intro Cons.IH) auto
    have split: "runs seq_name (r0 @ h # hs) = r0 # runs seq_name (h # hs)"
      using Cons.prems False by (intro runs_append_new [where c = c]) auto
    have "group_hits (h # hs) (c, collect r0) =
          (case group_hits hs (seq_name h, collect [h]) of (ys, st) \<Rightarrow> (collect r0 # ys, st))"
      using False Cons.prems(3) by (auto simp: one)
    then show ?thesis
      using IH split ne by simp
  qed
qed

lemma group_hits_initial:
  assumes "\<forall>h\<in>set hs. seq_name h \<noteq> None"
  shows "group_hits hs (None, []) =
     (map collect (butlast (runs seq_name hs)),
      (if hs = [] then None else seq_name (last hs),
       if hs = [] then [] else collect (last (runs seq_name hs))))"
proof (cases hs)
  case Nil
  then show ?thesis by simp
next
  case (Cons h hs')
  have one: "collect [h] = dict_set [] (fst h) [snd h]"
    by (simp add: collect_def)
  have "group_hits hs (None, []) = group_hits hs' (seq_name h, collect [h])"
    using Cons by (simp add: one)
  also have "\<dots> = (map collect (butlast (runs seq_name ([h] @ hs'))),
      (seq_name (last ([h] @ hs')), collect (last (runs seq_name ([h] @ hs')))))"
    using assms Cons by (intro group_hits_runs) auto
  finally show ?thesis using Cons by simp
qed

lemma parse_records_runs:
  "parse_records fh =
     (case parsed_hits ''CMSCAN'' (line_generator fh True True) of
        (hs, None) \<Rightarrow> (if hs = [] then [[]] else map collect (runs seq_name hs), None)
      | (hs, Some e) \<Rightarrow> (map collect (butlast (runs seq_name hs)), Some e))"
proof -
  obtain hs r where p: "parsed_hits ''CMSCAN'' (line_generator fh True True) = (hs, r)"
    by (cases "parsed_hits ''CMSCAN'' (line_generator fh True True)")
  have named: "\<forall>h\<in>set hs. seq_name h \<noteq> None"
    using parsed_hits_named [OF p] by blast
  define c where "c = (if hs = [] then None else seq_name (last hs))"
  define a where "a = (if hs = [] then [] else collect (last (runs seq_name hs)))"
  define ys where "ys = map collect (butlast (runs seq_name hs))"
  have g: "group_hits hs (None, []) = (ys, (c, a))"
    unfolding c_def a_def ys_def by (rule group_hits_initial [OF named])
  have rl: "records_loop ''CMSCAN'' (line_generator fh True True) (None, []) =
     (ys, case r of None \<Rightarrow> Inr (c, a) | Some e \<Rightarrow> Inl e)"
    by (simp add: records_loop_group_hits p g)
  show ?thesis
  proof (cases r)
    case None
    have pr: "parse_records fh = (ys @ [a], None)"
      unfolding parse_records_def rl None by simp
    show ?thesis
    proof (cases "hs = []")
      case True
      then show ?thesis unfolding pr p None by (simp add: ys_def a_def)
    next
      case False
      then have "runs seq_name hs \<noteq> []" by (simp add: runs_Nil_iff)
      then have "map collect (butlast (runs seq_name hs) @ [last (runs seq_name hs)])
                 = map collect (runs seq_name hs)"
        by simp
      then have "ys @ [a] = map collect (runs seq_name hs)"
        using False by (simp add: ys_def a_def)
      then show ?thesis unfolding pr p None using False by simp
    qed
  next
    case (Some e)
    have pr: "parse_records fh = (ys, Some e)"
      unfolding parse_records_def rl Some by simp
    show ?thesis unfolding pr p Some by (simp add: ys_def)
  qed
qed

section \<open>A file of one line\<close>

lemma parse_records_single:
  assumes "data_line l"
  shows "parse_records [l] =
     (case parse_hit ''CMSCAN'' (strip_py l) of
        Inl e \<Rightarrow> ([], Some e)
      | Inr h \<Rightarrow> ([[(fst h, [snd h])]], None))"
proof -
  have lg: "line_generator [l] True True = [strip_py l]"
    using assms by (simp add: line_generator_def data_line_def blank_strip_strip)
  have nc: "\<not> startswith (strip_py l) ''#''"
    using assms by (simp add: data_line_def)
  show ?thesis
  proof (cases "parse_hit ''CMSCAN'' (strip_py l)")
    case (Inl e)
    then show ?thesis using nc by (simp add: parse_records_def lg)
  next
    case (Inr h)
    have "dict_get (fst h) ''SEQUENCE_NAME'' = Inr (split_py (strip_py l) ! 2)"
      by (rule parse_hit_seq_name(3) [OF Inr])
    then show ?thesis using nc Inr
      by (cases h) (simp add: parse_records_def lg)
  qed
qed

lemma int_py_isdigit: "int_py x = Inr n \<Longrightarrow> isdigit x"
  by (auto simp: int_py_def isdigit_def isdigit_chr_def list_all_iff split: if_splits)

lemma parse_hit_wellformed:
  assumes "f = split_py line" and "18 \<le> length f"
    and "int_py (f ! 7) = Inr s" and "int_py (f ! 8) = Inr e"
  shows "parse_hit ''CMSCAN'' line =
     (if f ! 9 = ''+'' then
        (if s > e then Inl (CmscanFormatError (forward_message s e))
         else Inr (cmscan_attributes f, (s, e)))
      else if f ! 9 = ''-'' then
        (if s < e then Inl (CmscanFormatError (reverse_message s e))
         else Inr (cmscan_attributes f, (e, s)))
      else Inl (CmscanFormatError (strand_message (f ! 9) 9)))"
  using assms int_py_isdigit [OF assms(3)] int_py_isdigit [OF assms(4)]
  by (simp add: parse_hit_CMSCAN Let_def hitStart_cases hitEnd_cases orient_cases bindE_def)

section \<open>Counting the entries\<close>












section \<open>The claims\<close>

text \<open>
  Claim C3. A well-formed data line on the reverse strand (\<open>-\<close>) whose start is not
  below its end is stored with the bounds swapped, \<open>(end, start)\<close>, so the interval
  is ascending, and the \<open>STRAND\<close> attribute still holds \<open>-\<close>. For start 500 and end
  300 the interval is \<open>(300, 500)\<close> (the witness).
\<close>

theorem reverse_strand_interval_swapped:
  assumes "data_line line" and "f = split_py line" and "18 \<le> length f"
    and "int_py (f ! 7) = Inr s" and "int_py (f ! 8) = Inr e"
    and "f ! 9 = ''-''" and "s \<ge> e"
  shows "parse_hit ''CMSCAN'' (strip_py line) = Inr (cmscan_attributes f, (e, s)) \<and>
         parse_records [line] = ([[(cmscan_attributes f, [(e, s)])]], None) \<and>
         fst (e, s) \<le> snd (e, s) \<and>
         dict_get (cmscan_attributes f) ''STRAND'' = Inr ''-''"
proof -
  have f: "f = split_py (strip_py line)"
    using assms(2) by (simp add: split_py_strip)
  have hit: "parse_hit ''CMSCAN'' (strip_py line) = Inr (cmscan_attributes f, (e, s))"
    using parse_hit_wellformed [OF f assms(3) assms(4) assms(5)] assms(6) assms(7) by simp
  have "parse_records [line] = ([[(cmscan_attributes f, [(e, s)])]], None)"
    using parse_records_single [OF assms(1)] hit by simp
  moreover have "dict_get (cmscan_attributes f) ''STRAND'' = Inr ''-''"
    using assms(6) by (simp add: cmscan_attributes_def dict_get_def)
  ultimately show ?thesis using hit assms(7) by simp
qed

theorem reverse_strand_interval_swapped_witness:
  "parse_records [reverse_line] =
     ([[(cmscan_attributes (split_py reverse_line), [(300, 500)])]], None) \<and>
   dict_get (cmscan_attributes (split_py reverse_line)) ''STRAND'' = Inr ''-''"
proof -
  have 1: "data_line reverse_line" by code_simp
  have 2: "18 \<le> length (split_py reverse_line)" by code_simp
  have 3: "int_py (split_py reverse_line ! 7) = Inr 500" by code_simp
  have 4: "int_py (split_py reverse_line ! 8) = Inr 300" by code_simp
  have 5: "split_py reverse_line ! 9 = ''-''" by code_simp
  show ?thesis
    using reverse_strand_interval_swapped [OF 1 refl 2 3 4 5] by simp
qed

text \<open>
  Claim C4. On the forward strand (\<open>+\<close>), with numeric start and end, a format error
  is raised exactly when start exceeds end; its message is the one that suggests the
  reverse strand. Otherwise a line with all 18 columns is stored with the interval
  \<open>(start, end)\<close>, the bounds in the order of the input.
\<close>

theorem forward_strand_order:
  assumes "data_line line" and "f = split_py line" and "10 \<le> length f"
    and "int_py (f ! 7) = Inr s" and "int_py (f ! 8) = Inr e"
    and "f ! 9 = ''+''"
  shows "((\<exists>m. parse_hit ''CMSCAN'' (strip_py line) = Inl (CmscanFormatError m)) \<longleftrightarrow> s > e) \<and>
         (s > e \<longrightarrow>
            parse_records [line] = ([], Some (CmscanFormatError (forward_message s e))) \<and>
            (\<exists>pre. forward_message s e = pre @
               ''. It might be, that this hit is in fact on the reverse strand. Please check strand orientation and positions.'')) \<and>
         (s \<le> e \<and> 18 \<le> length f \<longrightarrow>
            parse_hit ''CMSCAN'' (strip_py line) = Inr (cmscan_attributes f, (s, e)) \<and>
            parse_records [line] = ([[(cmscan_attributes f, [(s, e)])]], None))"
proof -
  have f: "split_py (strip_py line) = f"
    using assms(2) by (simp add: split_py_strip)
  have d1: "isdigit (f ! 7)" and d2: "isdigit (f ! 8)"
    using int_py_isdigit assms(4,5) by blast+
  have hit: "parse_hit ''CMSCAN'' (strip_py line) =
     (if s > e then Inl (CmscanFormatError (forward_message s e))
      else if length f < 18 then Inl IndexError
      else Inr (cmscan_attributes f, (s, e)))"
    using assms(3,4,5,6) d1 d2
    by (simp add: parse_hit_CMSCAN f Let_def hitStart_cases hitEnd_cases orient_cases bindE_def)
  have 1: "(\<exists>m. parse_hit ''CMSCAN'' (strip_py line) = Inl (CmscanFormatError m)) \<longleftrightarrow> s > e"
    by (simp add: hit)
  have 2: "s > e \<longrightarrow> parse_records [line] = ([], Some (CmscanFormatError (forward_message s e)))"
    by (simp add: parse_records_single [OF assms(1)] hit)
  have 3: "\<exists>pre. forward_message s e = pre @
      ''. It might be, that this hit is in fact on the reverse strand. Please check strand orientation and positions.''"
    unfolding forward_message_def by (metis append.assoc)
  have 4: "s \<le> e \<and> 18 \<le> length f \<longrightarrow>
            parse_hit ''CMSCAN'' (strip_py line) = Inr (cmscan_attributes f, (s, e)) \<and>
            parse_records [line] = ([[(cmscan_attributes f, [(s, e)])]], None)"
    by (simp add: parse_records_single [OF assms(1)] hit)
  show ?thesis using 1 2 3 4 by blast
qed

theorem forward_strand_order_witness:
  "parse_records [forward_line] =
     ([[(cmscan_attributes (split_py forward_line), [(300, 500)])]], None) \<and>
   parse_records [forward_bad_line] =
     ([], Some (CmscanFormatError (forward_message 500 300)))"
proof -
  have 1: "data_line forward_line" by code_simp
  have 2: "10 \<le> length (split_py forward_line)" by code_simp
  have 3: "int_py (split_py forward_line ! 7) = Inr 300" by code_simp
  have 4: "int_py (split_py forward_line ! 8) = Inr 500" by code_simp
  have 5: "split_py forward_line ! 9 = ''+''" by code_simp
  have 6: "18 \<le> length (split_py forward_line)" by code_simp
  have b1: "data_line forward_bad_line" by code_simp
  have b2: "10 \<le> length (split_py forward_bad_line)" by code_simp
  have b3: "int_py (split_py forward_bad_line ! 7) = Inr 500" by code_simp
  have b4: "int_py (split_py forward_bad_line ! 8) = Inr 300" by code_simp
  have b5: "split_py forward_bad_line ! 9 = ''+''" by code_simp
  show ?thesis
    using forward_strand_order [OF 1 refl 2 3 4 5] 6
      forward_strand_order [OF b1 refl b2 b3 b4 b5] by simp
qed




text \<open>
  Claim C2. The module's documentation says that the 18th column is the remainder of
  the line and may contain spaces. The code stores \<open>fields[17]\<close> alone: for a line
  whose description is \<open>Bacterial large subunit ribosomal RNA\<close> the \<open>DESCRIPTION\<close>
  attribute is \<open>Bacterial\<close>, and the four tokens after it are dropped.
\<close>

theorem description_keeps_first_token_only:
  "drop 17 (split_py described_line) =
     [''Bacterial'', ''large'', ''subunit'', ''ribosomal'', ''RNA''] \<and>
   snd (parse_records [described_line]) = None \<and>
   map (map (\<lambda>entry. dict_get (fst entry) ''DESCRIPTION'')) (fst (parse_records [described_line])) =
     [[Inr ''Bacterial'']]"
  by code_simp

text \<open>
  Claim C5. A non-numeric start position raises the format error that names column 7
  and the literal. A non-numeric end position does not: the formatting of its message
  fails first, and the exception that leaves the parser is \<open>TypeError\<close>.
\<close>

theorem end_position_error_is_TypeError:
  "parse_records [bad_start_line] =
     ([], Some (CmscanFormatError (start_message 7 ''abc''))) \<and>
   parse_records [bad_end_line] = ([], Some TypeError)"
  by code_simp

text \<open>
  Claim C8. \<open>parse_records\<close> takes the file alone, and its variant is the constant
  \<open>CMSCAN\<close>. A line in the layout of cmsearch, with the sequence in columns 0-1 and the
  model in columns 2-3, is therefore read with the roles exchanged: the model name is
  stored as \<open>SEQUENCE_NAME\<close>. The \<open>CMSEARCH\<close> branch of the loop body, which would store
  the sequence name, is never selected.
\<close>

theorem program_variant_is_fixed:
  "map (map (\<lambda>entry. dict_get (fst entry) ''SEQUENCE_NAME'')) (fst (parse_records [cmsearch_line])) =
     [[Inr ''LSU_rRNA_bacteria'']] \<and>
   (case parse_hit ''CMSEARCH'' cmsearch_line of
      Inl e \<Rightarrow> Inl e
    | Inr h \<Rightarrow> dict_get (fst h) ''SEQUENCE_NAME'') = Inr ''gi|15829254|ref|NC_002695.1|''"
  by code_simp

lemma strip_blank_iff: "strip_py l = [] \<longleftrightarrow> blank l"
  by (simp add: blank_strip)

lemma too_many_blanks_leading:
  "too_many_blanks fh n \<longleftrightarrow> n < leading_blanks fh"
proof -
  have "takeWhile (\<lambda>l. l = []) (map strip_py fh) = map strip_py (takeWhile blank fh)"
    by (simp add: takeWhile_map comp_def strip_blank_iff)
  then show ?thesis
    by (simp add: too_many_blanks_def line_generator_def leading_blanks_def)
qed

lemma line_generator_first:
  "first_nonblank fh = (case line_generator fh True False of [] \<Rightarrow> None | l # _ \<Rightarrow> Some l)"
  by (simp add: line_generator_def first_nonblank_def)

text \<open>
  Claim C9 (as amended). The sniffer answers true exactly when the leading run of
  blank lines is at most 5 lines long and the first non-blank line starts with
  \<open>#target name\<close>; the options are always empty. It answers false on the empty input
  and on every input with more than 5 leading blank lines.
\<close>

theorem sniffer_verdict:
  "snd (cmscan_sniffer fh) = [] \<and>
   (fst (cmscan_sniffer fh) \<longleftrightarrow>
      leading_blanks fh \<le> 5 \<and>
      (\<exists>l. first_nonblank fh = Some l \<and> startswith l ''#target name'')) \<and>
   cmscan_sniffer [] = (False, []) \<and>
   (5 < leading_blanks fh \<longrightarrow> cmscan_sniffer fh = (False, []))"
proof -
  have "cmscan_sniffer fh =
     (if 5 < leading_blanks fh then (False, [])
      else case first_nonblank fh of
             None \<Rightarrow> (False, [])
           | Some l \<Rightarrow> (startswith l ''#target name'', []))"
    by (simp add: cmscan_sniffer_def too_many_blanks_leading line_generator_first
          split: list.splits)
  moreover have "cmscan_sniffer [] = (False, [])"
    by (simp add: cmscan_sniffer_def too_many_blanks_def line_generator_def)
  ultimately show ?thesis
    by (auto split: option.splits)
qed

theorem sniffer_verdict_witness:
  "cmscan_sniffer header_input = (True, []) \<and> leading_blanks header_input = 2 \<and>
   leading_blanks blank_prefixed_input = 6 \<and>
   cmscan_sniffer blank_prefixed_input = (False, [])"
proof -
  have 1: "leading_blanks header_input = 2" by code_simp
  have 2: "first_nonblank header_input =
             Some (''#target name           accession query name'' @ newline)" by code_simp
  have 3: "startswith (''#target name           accession query name'' @ newline) ''#target name''"
    by code_simp
  have 4: "leading_blanks blank_prefixed_input = 6" by code_simp
  have "fst (cmscan_sniffer header_input)"
    using sniffer_verdict [of header_input] 1 2 3 by simp
  moreover have "snd (cmscan_sniffer header_input) = []"
    using sniffer_verdict [of header_input] by simp
  ultimately have "cmscan_sniffer header_input = (True, [])"
    by (metis prod.collapse)
  moreover have "cmscan_sniffer blank_prefixed_input = (False, [])"
    using sniffer_verdict [of blank_prefixed_input] 4 by simp
  ultimately show ?thesis using 1 4 by simp
qed

text \<open>
  Claim C9 as first stated does not hold: after six blank lines the first non-blank
  line starts with \<open>#target name\<close>, and the sniffer still answers false.
\<close>

theorem sniffer_rejects_header_after_six_blanks:
  "first_nonblank blank_prefixed_input =
     Some (''#target name           accession query name'' @ newline) \<and>
   startswith (''#target name           accession query name'' @ newline) ''#target name'' \<and>
   fst (cmscan_sniffer blank_prefixed_input) = False"
  by code_simp


text \<open>
  Claim C6. The collections are yielded in file order, one per maximal run of
  consecutive data lines with the same \<open>SEQUENCE_NAME\<close>: the yielded list is the list
  of the runs of the parsed hits, each collected into a dictionary (without the last,
  unfinished run when a line raises). The runs of any list of hits are contiguous
  (their concatenation is the list), non-empty, of one sequence name each, and
  neighbouring runs differ in their sequence name; so a name that returns after an
  interruption opens a new collection.
\<close>

theorem groups_are_contiguous_runs:
  "parse_records fh =
     (case parsed_hits ''CMSCAN'' (line_generator fh True True) of
        (hs, None) \<Rightarrow> (if hs = [] then [[]] else map collect (runs seq_name hs), None)
      | (hs, Some e) \<Rightarrow> (map collect (butlast (runs seq_name hs)), Some e)) \<and>
   concat (runs seq_name xs) = xs \<and>
   (\<forall>r\<in>set (runs seq_name xs). r \<noteq> [] \<and> (\<forall>h\<in>set r. seq_name h = seq_name (hd r))) \<and>
   (\<forall>i. Suc i < length (runs seq_name xs) \<longrightarrow>
      seq_name (hd (runs seq_name xs ! i)) \<noteq> seq_name (hd (runs seq_name xs ! Suc i)))"
  using parse_records_runs [of fh] concat_runs [of seq_name xs]
    runs_nonempty [of _ seq_name xs] runs_same_key [of _ seq_name xs]
    runs_adjacent_differ [of _ seq_name xs]
  by blast

theorem groups_are_contiguous_runs_witness:
  "map (map (\<lambda>entry. dict_get (fst entry) ''SEQUENCE_NAME'')) (fst (parse_records interrupted_input)) =
     [[Inr ''seq1'', Inr ''seq1''], [Inr ''seq2''], [Inr ''seq1'']] \<and>
   snd (parse_records interrupted_input) = None"
proof -
  have "map (map (\<lambda>entry. dict_get (fst entry) ''SEQUENCE_NAME''))
      (fst (case parsed_hits ''CMSCAN'' (line_generator interrupted_input True True) of
        (hs, None) \<Rightarrow> (if hs = [] then [[]] else map collect (runs seq_name hs), None)
      | (hs, Some e) \<Rightarrow> (map collect (butlast (runs seq_name hs)), Some e))) =
     [[Inr ''seq1'', Inr ''seq1''], [Inr ''seq2''], [Inr ''seq1'']] \<and>
     snd (case parsed_hits ''CMSCAN'' (line_generator interrupted_input True True) of
        (hs, None) \<Rightarrow> (if hs = [] then [[]] else map collect (runs seq_name hs), None)
      | (hs, Some e) \<Rightarrow> (map collect (butlast (runs seq_name hs)), Some e)) = None"
    by code_simp
  then show ?thesis
    using groups_are_contiguous_runs [of interrupted_input "[]"] by simp
qed






end
